theory Spec2Isabelle
  imports Complex_Main "HOL-Library.AList"
begin

section \<open>Strings and paths\<close>

text \<open>
  File names and paths are \<open>string\<close>s of ASCII characters. \<open>str.lower()\<close> maps the
  letters A to Z to a to z and leaves every other character alone.
\<close>

definition lower_char :: "char \<Rightarrow> char" where
  "lower_char c =
     (let n = (of_char c :: nat) in if 65 \<le> n \<and> n \<le> 90 then char_of (n + 32) else c)"

definition lower :: "string \<Rightarrow> string" where
  "lower s = map lower_char s"

text \<open>\<open>s.endswith(suf)\<close> and the slice \<open>s[-n:]\<close> (the whole string when it is shorter).\<close>

definition endswith :: "string \<Rightarrow> string \<Rightarrow> bool" where
  "endswith s suf = (length suf \<le> length s \<and> drop (length s - length suf) s = suf)"

definition last_chars :: "nat \<Rightarrow> string \<Rightarrow> string" where
  "last_chars n s = drop (length s - n) s"

text \<open>\<open>s.rfind(c)\<close>: the index of the last occurrence of \<open>c\<close>, or -1.\<close>

definition rfind :: "string \<Rightarrow> char \<Rightarrow> int" where
  "rfind s c =
     (if c \<in> set s then int (length s) - 1 - int (length (takeWhile (\<lambda>d. d \<noteq> c) (rev s)))
      else - 1)"

text \<open>
  \<open>Path(p).name\<close>, the final component of a POSIX path (the paths of files, which do not
  end in a separator), and \<open>Path(p).suffix\<close>, following pathlib:
  \<^verbatim>\<open>i = name.rfind('.'); return name[i:] if 0 < i < len(name) - 1 else ''\<close>
\<close>

definition path_name :: "string \<Rightarrow> string" where
  "path_name p = rev (takeWhile (\<lambda>d. d \<noteq> CHR ''/'') (rev p))"

definition path_suffix :: "string \<Rightarrow> string" where
  "path_suffix p =
     (let name = path_name p; i = rfind name CHR ''.''
      in if 0 < i \<and> i < int (length name) - 1 then drop (nat i) name else [])"

section \<open>ImageCompressor: classification of files\<close>

definition supported_formats :: "string set" where
  "supported_formats = {''.jpg'', ''.jpeg'', ''.png'', ''.webp'', ''.avif''}"

definition quality_mapping :: "string \<rightharpoonup> nat" where
  "quality_mapping =
     [''.jpg'' \<mapsto> 85, ''.jpeg'' \<mapsto> 85, ''.png'' \<mapsto> 95, ''.webp'' \<mapsto> 85, ''.avif'' \<mapsto> 80]"

definition get_extension :: "string \<Rightarrow> string" where
  "get_extension filename =
     (let name = lower filename
      in if endswith name ''.jpg.avif'' \<or> endswith name ''.jpg.webp'' then last_chars 9 name
         else if endswith name ''.png.webp'' \<or> endswith name ''.png.avif'' then last_chars 8 name
         else path_suffix name)"

definition is_image :: "string \<Rightarrow> bool" where
  "is_image filename = (get_extension filename \<in> supported_formats)"

section \<open>The file system and the image library\<close>

text \<open>
  The file system is an association list from paths to nodes, in the order in which a
  directory walk meets them; the first entry for a path is the one that counts. A
  directory carries the size that \<open>stat\<close> reports for it.
\<close>

type_synonym bytes = "char list"

datatype node = File bytes | Dir nat

type_synonym filesystem = "(string \<times> node) list"

datatype exn =
    FileNotFoundError
  | IsADirectoryError
  | ShutilError
  | ZeroDivisionError
  | ImageError string

definition os_path_exists :: "filesystem \<Rightarrow> string \<Rightarrow> bool" where
  "os_path_exists fsys p = (map_of fsys p \<noteq> None)"

definition is_file :: "filesystem \<Rightarrow> string \<Rightarrow> bool" where
  "is_file fsys p = (case map_of fsys p of Some (File b) \<Rightarrow> True | _ \<Rightarrow> False)"

definition os_path_getsize :: "filesystem \<Rightarrow> string \<Rightarrow> exn + nat" where
  "os_path_getsize fsys p =
     (case map_of fsys p of
        None \<Rightarrow> Inl FileNotFoundError
      | Some (File b) \<Rightarrow> Inr (length b)
      | Some (Dir n) \<Rightarrow> Inr n)"

definition os_remove :: "filesystem \<Rightarrow> string \<Rightarrow> exn + filesystem" where
  "os_remove fsys p =
     (case map_of fsys p of
        None \<Rightarrow> Inl FileNotFoundError
      | Some (File b) \<Rightarrow> Inr (AList.delete p fsys)
      | Some (Dir n) \<Rightarrow> Inl IsADirectoryError)"

text \<open>
  \<open>shutil.move(src, dst)\<close> for a regular file \<open>src\<close>: a rename that replaces \<open>dst\<close>, or a
  move into \<open>dst\<close> when that is a directory. Moving a directory tree is not modelled
  (compress_image only moves the temporary file that it has just written).
\<close>

definition shutil_move :: "filesystem \<Rightarrow> string \<Rightarrow> string \<Rightarrow> exn + filesystem" where
  "shutil_move fsys src dst =
     (case map_of fsys src of
        None \<Rightarrow> Inl FileNotFoundError
      | Some (Dir n) \<Rightarrow> Inl ShutilError
      | Some (File b) \<Rightarrow>
          (if src = dst then Inr fsys
           else case map_of fsys dst of
                  Some (Dir n) \<Rightarrow>
                    (let real_dst = dst @ ''/'' @ path_name src
                     in if os_path_exists fsys real_dst then Inl ShutilError
                        else Inr (AList.delete src (AList.update real_dst (File b) fsys)))
                | _ \<Rightarrow> Inr (AList.delete src (AList.update dst (File b) fsys))))"

text \<open>
  \<open>Path(folder).rglob('*')\<close>: every path strictly below \<open>folder\<close>, each once.
\<close>

definition descends :: "string \<Rightarrow> string \<Rightarrow> bool" where
  "descends folder p =
     (Suc (length folder) < length p \<and> take (Suc (length folder)) p = folder @ ''/'')"

definition rglob :: "filesystem \<Rightarrow> string \<Rightarrow> string list" where
  "rglob fsys folder = filter (descends folder) (remdups (map fst fsys))"

text \<open>
  The imaging library is an external collaborator: decoding, the conversion of a
  transparent or paletted image to RGB on white, and encoding may each raise. An encoder
  that raises may leave nothing, or a partial file, at the path it was writing.
\<close>

datatype save_format =
    JPEG nat bool
  | PNG bool
  | WEBP nat nat
  | AVIF nat

datatype save_outcome = Written bytes | Failed exn "bytes option"

record 'i codec =
  decode :: "bytes \<Rightarrow> exn + 'i"
  img_mode :: "'i \<Rightarrow> string"
  flatten :: "'i \<Rightarrow> bool \<Rightarrow> exn + 'i"
  encode :: "'i \<Rightarrow> save_format \<Rightarrow> save_outcome"

definition image_open :: "'i codec \<Rightarrow> filesystem \<Rightarrow> string \<Rightarrow> exn + 'i" where
  "image_open env fsys p =
     (case map_of fsys p of
        None \<Rightarrow> Inl FileNotFoundError
      | Some (Dir n) \<Rightarrow> Inl IsADirectoryError
      | Some (File b) \<Rightarrow> decode env b)"

definition convert_mode :: "'i codec \<Rightarrow> 'i \<Rightarrow> exn + 'i" where
  "convert_mode env img =
     (if img_mode env img \<in> {''RGBA'', ''LA'', ''P''}
      then flatten env img (img_mode env img = ''RGBA'')
      else Inr img)"

definition img_save ::
  "'i codec \<Rightarrow> 'i \<Rightarrow> string \<Rightarrow> save_format \<Rightarrow> filesystem \<Rightarrow> (exn + unit) \<times> filesystem" where
  "img_save env img t fmt fsys =
     (case map_of fsys t of
        Some (Dir n) \<Rightarrow> (Inl IsADirectoryError, fsys)
      | _ \<Rightarrow>
          (case encode env img fmt of
             Written b \<Rightarrow> (Inr (), AList.update t (File b) fsys)
           | Failed e None \<Rightarrow> (Inl e, fsys)
           | Failed e (Some part) \<Rightarrow> (Inl e, AList.update t (File part) fsys)))"

section \<open>ImageCompressor: state\<close>

record stats =
  total_files :: nat
  compressed :: nat
  failed :: nat
  original_size :: nat
  compressed_size :: nat

definition init_stats :: stats where
  "init_stats =
     \<lparr>total_files = 0, compressed = 0, failed = 0, original_size = 0, compressed_size = 0\<rparr>"

text \<open>What is printed, one value for each print statement of the program.\<close>

datatype msg =
    ErrorWith string exn
  | FolderMissing string
  | NoImageFound
  | Processing nat
  | Progress nat nat string
  | Reduced rat
  | Failure
  | EndOfRun string
  | SummaryRule
  | SummaryTitle
  | SummaryTotal nat
  | SummaryCompressed nat
  | SummaryFailed nat
  | SummaryOriginal string
  | SummaryCompressedSize string
  | SummarySaved string rat
  | Completed
  | NotCompleted

record state =
  fs :: filesystem
  stats :: stats
  out :: "msg list"

definition init_state :: "filesystem \<Rightarrow> state" where
  "init_state fsys = \<lparr>fs = fsys, stats = init_stats, out = []\<rparr>"

definition print :: "msg \<Rightarrow> state \<Rightarrow> state" where
  "print m st = st\<lparr>out := out st @ [m]\<rparr>"

definition add_compressed_size :: "nat \<Rightarrow> state \<Rightarrow> state" where
  "add_compressed_size n st =
     st\<lparr>stats := (stats st)\<lparr>compressed_size := compressed_size (stats st) + n\<rparr>\<rparr>"

section \<open>ImageCompressor.compress\_image\<close>

definition quality_for :: "string \<Rightarrow> nat" where
  "quality_for ext = (case quality_mapping ext of Some q \<Rightarrow> q | None \<Rightarrow> 85)"

definition select_encoder :: "string \<Rightarrow> nat \<Rightarrow> save_format option" where
  "select_encoder ext quality =
     (if ext \<in> {''.jpg'', ''.jpeg''} then Some (JPEG quality True)
      else if ext = ''.png'' then Some (PNG True)
      else if ext = ''.webp'' then Some (WEBP quality 6)
      else if ext \<in> {''.jpg.avif'', ''.png.avif''} then Some (AVIF quality)
      else None)"

text \<open>
  The body of the \<open>try\<close> block. It yields the value returned or the exception raised,
  the state reached, and the value of \<open>temp_path\<close> at that point.
\<close>

definition compress_image_try ::
  "'i codec \<Rightarrow> string \<Rightarrow> state \<Rightarrow> (exn + bool) \<times> state \<times> string option" where
  "compress_image_try env image_path st =
     (case os_path_getsize (fs st) image_path of
        Inl e \<Rightarrow> (Inl e, st, None)
      | Inr osz \<Rightarrow>
     (case image_open env (fs st) image_path of
        Inl e \<Rightarrow> (Inl e, st, None)
      | Inr img0 \<Rightarrow>
     (case convert_mode env img0 of
        Inl e \<Rightarrow> (Inl e, st, None)
      | Inr img \<Rightarrow>
     (let ext = get_extension image_path;
          quality = quality_for ext;
          temp_path = image_path @ ''.tmp''
      in case select_encoder ext quality of
        None \<Rightarrow> (Inr False, st, Some temp_path)
      | Some fmt \<Rightarrow>
     (case img_save env img temp_path fmt (fs st) of
        (Inl e, fs1) \<Rightarrow> (Inl e, st\<lparr>fs := fs1\<rparr>, Some temp_path)
      | (Inr u, fs1) \<Rightarrow>
     (case os_path_getsize fs1 temp_path of
        Inl e \<Rightarrow> (Inl e, st\<lparr>fs := fs1\<rparr>, Some temp_path)
      | Inr csz \<Rightarrow>
          (if csz < osz then
             (case shutil_move fs1 temp_path image_path of
                Inl e \<Rightarrow> (Inl e, st\<lparr>fs := fs1\<rparr>, Some temp_path)
              | Inr fs2 \<Rightarrow> (Inr True, add_compressed_size csz (st\<lparr>fs := fs2\<rparr>), Some temp_path))
           else
             (case os_remove fs1 temp_path of
                Inl e \<Rightarrow> (Inl e, st\<lparr>fs := fs1\<rparr>, Some temp_path)
              | Inr fs2 \<Rightarrow> (Inr True, add_compressed_size osz (st\<lparr>fs := fs2\<rparr>), Some temp_path)))))))))"

text \<open>
  The \<open>except Exception\<close> handler: print the error line, remove the temporary file if
  \<open>temp_path\<close> is set and the path exists, return False. An exception raised by the
  handler itself leaves compress\_image.
\<close>

definition compress_image_except ::
  "string \<Rightarrow> exn \<Rightarrow> string option \<Rightarrow> state \<Rightarrow> (exn + bool) \<times> state" where
  "compress_image_except image_path e temp_path st =
     (let st1 = print (ErrorWith image_path e) st
      in case temp_path of
           None \<Rightarrow> (Inr False, st1)
         | Some t \<Rightarrow>
             (if os_path_exists (fs st1) t then
                (case os_remove (fs st1) t of
                   Inl e' \<Rightarrow> (Inl e', st1)
                 | Inr fs' \<Rightarrow> (Inr False, st1\<lparr>fs := fs'\<rparr>))
              else (Inr False, st1)))"

definition compress_image :: "'i codec \<Rightarrow> string \<Rightarrow> state \<Rightarrow> (exn + bool) \<times> state" where
  "compress_image env image_path st =
     (case compress_image_try env image_path st of
        (Inr r, st', temp_path) \<Rightarrow> (Inr r, st')
      | (Inl e, st', temp_path) \<Rightarrow> compress_image_except image_path e temp_path st')"

section \<open>ImageCompressor.process\_folder\<close>

text \<open>One iteration of the loop over the image files, and the loop.\<close>

definition process_one :: "'i codec \<Rightarrow> nat \<Rightarrow> string \<Rightarrow> state \<Rightarrow> (exn + unit) \<times> state" where
  "process_one env i image_path st =
     (case os_path_getsize (fs st) image_path of
        Inl e \<Rightarrow> (Inl e, st)
      | Inr osz \<Rightarrow>
          (let st1 = st\<lparr>stats := (stats st)\<lparr>original_size := original_size (stats st) + osz\<rparr>\<rparr>;
               st2 = print (Progress i (total_files (stats st1)) (path_name image_path)) st1
           in case compress_image env image_path st2 of
                (Inl e, st3) \<Rightarrow> (Inl e, st3)
              | (Inr True, st3) \<Rightarrow>
                  (case os_path_getsize (fs st3) image_path of
                     Inl e \<Rightarrow> (Inl e, st3)
                   | Inr nsz \<Rightarrow>
                       (if osz = 0 then (Inl ZeroDivisionError, st3)
                        else
                          (let st4 = print (Reduced ((1 - of_nat nsz / of_nat osz) * 100)) st3
                           in (Inr (), st4\<lparr>stats := (stats st4)\<lparr>compressed := compressed (stats st4) + 1\<rparr>\<rparr>))))
              | (Inr False, st3) \<Rightarrow>
                  (let st4 = print Failure st3
                   in (Inr (), st4\<lparr>stats := (stats st4)\<lparr>failed := failed (stats st4) + 1\<rparr>\<rparr>))))"

fun process_files :: "'i codec \<Rightarrow> nat \<Rightarrow> string list \<Rightarrow> state \<Rightarrow> (exn + unit) \<times> state" where
  "process_files env i [] st = (Inr (), st)"
| "process_files env i (image_path # rest) st =
     (case process_one env i image_path st of
        (Inl e, st') \<Rightarrow> (Inl e, st')
      | (Inr u, st') \<Rightarrow> process_files env (Suc i) rest st')"

definition image_files :: "filesystem \<Rightarrow> string \<Rightarrow> string list" where
  "image_files fsys folder =
     filter (\<lambda>f. is_file fsys f \<and> is_image (path_name f)) (rglob fsys folder)"

definition process_folder :: "'i codec \<Rightarrow> string \<Rightarrow> state \<Rightarrow> (exn + bool) \<times> state" where
  "process_folder env folder_path st =
     (if \<not> os_path_exists (fs st) folder_path
      then (Inr False, print (FolderMissing folder_path) st)
      else
        (let files = image_files (fs st) folder_path
         in if files = [] then (Inr False, print NoImageFound st)
            else
              (let st1 = st\<lparr>stats := (stats st)\<lparr>total_files := length files\<rparr>\<rparr>;
                   st2 = print (Processing (total_files (stats st1))) st1
               in case process_files env 1 files st2 of
                    (Inl e, st') \<Rightarrow> (Inl e, st')
                  | (Inr u, st') \<Rightarrow> (Inr True, st'))))"

section \<open>ImageCompressor.format\_size and the summary\<close>

text \<open>
  Sizes are divided in exact arithmetic. Python divides in binary floating point, where
  a division by 1024 is exact, so the two agree on every size below \<open>2 ^ 53\<close> bytes.
  \<open>format_2f x\<close> is \<open>f"{x:.2f}"\<close>: two decimals, ties rounded to the even digit.
\<close>

definition digit_char :: "nat \<Rightarrow> char" where
  "digit_char d = char_of (48 + d)"

fun show_nat :: "nat \<Rightarrow> string" where
  "show_nat n = (if n < 10 then [digit_char n] else show_nat (n div 10) @ [digit_char (n mod 10)])"

declare show_nat.simps [simp del]

definition round_half_even :: "rat \<Rightarrow> int" where
  "round_half_even x =
     (let q = \<lfloor>x\<rfloor>; r = x - of_int q
      in if r < 1 / 2 then q else if 1 / 2 < r then q + 1 else if even q then q else q + 1)"

definition format_2f :: "rat \<Rightarrow> string" where
  "format_2f x =
     (let m = nat (round_half_even (\<bar>x\<bar> * 100))
      in (if x < 0 then ''-'' else []) @ show_nat (m div 100) @ ''.'' @
         [digit_char (m mod 100 div 10), digit_char (m mod 10)])"

fun format_size_loop :: "string list \<Rightarrow> rat \<Rightarrow> string" where
  "format_size_loop [] x = format_2f x @ '' TB''"
| "format_size_loop (unit # units) x =
     (if x < 1024 then format_2f x @ '' '' @ unit else format_size_loop units (x / 1024))"

definition format_size :: "int \<Rightarrow> string" where
  "format_size size_bytes = format_size_loop [''B'', ''KB'', ''MB'', ''GB''] (of_int size_bytes)"

definition print_summary :: "string \<Rightarrow> state \<Rightarrow> state" where
  "print_summary now st =
     (let s = stats st;
          st1 = print (SummaryCompressedSize (format_size (int (compressed_size s))))
                 (print (SummaryOriginal (format_size (int (original_size s))))
                 (print (SummaryFailed (failed s))
                 (print (SummaryCompressed (compressed s))
                 (print (SummaryTotal (total_files s))
                 (print SummaryRule (print SummaryTitle (print SummaryRule
                 (print (EndOfRun now) st))))))));
          st2 = (if original_size s > 0
                 then print (SummarySaved
                               (format_size (int (original_size s) - int (compressed_size s)))
                               ((1 - of_nat (compressed_size s) / of_nat (original_size s)) * 100))
                        st1
                 else st1)
      in print SummaryRule st2)"

text \<open>
  The script: a compressor with fresh statistics on the folder that was typed in. The
  interpreter exits with status 1 when an exception escapes and with 0 otherwise.
\<close>

definition main :: "'i codec \<Rightarrow> string \<Rightarrow> string \<Rightarrow> filesystem \<Rightarrow> int \<times> state" where
  "main env folder_path now fsys =
     (case process_folder env folder_path (init_state fsys) of
        (Inl e, st) \<Rightarrow> (1, st)
      | (Inr True, st) \<Rightarrow> (0, print Completed (print_summary now st))
      | (Inr False, st) \<Rightarrow> (0, print NotCompleted st))"

section \<open>Notions used to state the properties\<close>

definition is_dir :: "filesystem \<Rightarrow> string \<Rightarrow> bool" where
  "is_dir fsys p = (case map_of fsys p of Some (Dir n) \<Rightarrow> True | _ \<Rightarrow> False)"

text \<open>
  What the encoder that compress\_image selects writes for the file at \<open>p\<close>, when the file
  can be opened and converted, an encoder is selected and it succeeds.
\<close>

definition reencoded :: "'i codec \<Rightarrow> filesystem \<Rightarrow> string \<Rightarrow> bytes option" where
  "reencoded env fsys p =
     (case image_open env fsys p of
        Inl e \<Rightarrow> None
      | Inr img0 \<Rightarrow>
          (case convert_mode env img0 of
             Inl e \<Rightarrow> None
           | Inr img \<Rightarrow>
               (case select_encoder (get_extension p) (quality_for (get_extension p)) of
                  None \<Rightarrow> None
                | Some fmt \<Rightarrow>
                    (case encode env img fmt of Written b \<Rightarrow> Some b | Failed e part \<Rightarrow> None))))"

text \<open>
  Example environments: a codec that rejects an empty file and halves any other, one that
  accepts every file, and three small trees.
\<close>

definition example_codec :: "bytes codec" where
  "example_codec =
     \<lparr>decode = (\<lambda>b. if b = [] then Inl (ImageError ''cannot identify image file'') else Inr b),
      img_mode = (\<lambda>i. ''RGB''),
      flatten = (\<lambda>i m. Inr i),
      encode = (\<lambda>i f. Written (take (length i div 2) i))\<rparr>"

definition lenient_codec :: "bytes codec" where
  "lenient_codec =
     \<lparr>decode = (\<lambda>b. Inr b),
      img_mode = (\<lambda>i. ''RGB''),
      flatten = (\<lambda>i m. Inr i),
      encode = (\<lambda>i f. Written i)\<rparr>"

definition example_tree :: filesystem where
  "example_tree =
     [(''pics'', Dir 4096), (''pics/a.jpg'', File ''abcd''), (''pics/b.avif'', File ''xy''),
      (''pics/c.png'', File ''q''), (''pics/notes.txt'', File ''zz'')]"

definition blocked_tree :: filesystem where
  "blocked_tree =
     [(''pics'', Dir 4096), (''pics/a.jpg'', File ''abcd''), (''pics/a.jpg.tmp'', Dir 4096)]"

definition empty_file_tree :: filesystem where
  "empty_file_tree = [(''pics'', Dir 4096), (''pics/e.jpg'', File [])]"

section \<open>Paths and logical extensions\<close>

lemma path_name_append:
  assumes "CHR ''/'' \<notin> set t"
  shows "path_name (s @ t) = path_name s @ t"
proof -
  have "takeWhile (\<lambda>d. d \<noteq> CHR ''/'') (rev t @ rev s) =
        rev t @ takeWhile (\<lambda>d. d \<noteq> CHR ''/'') (rev s)"
    by (rule takeWhile_append2) (use assms in auto)
  then show ?thesis by (simp add: path_name_def)
qed

lemma path_name_no_sep: "CHR ''/'' \<notin> set (path_name p)"
  by (auto simp: path_name_def dest: set_takeWhileD)

lemma path_name_idem: "path_name (path_name p) = path_name p"
  using path_name_append [of "path_name p" "[]"] path_name_no_sep [of p]
  by (simp add: path_name_def takeWhile_eq_all_conv)

lemma rfind_append:
  "c \<in> set t \<Longrightarrow> rfind (s @ t) c = int (length s) + rfind t c"
  by (simp add: rfind_def takeWhile_append1)

lemma rfind_Cons_hit:
  assumes "c \<notin> set t"
  shows "rfind (c # t) c = 0"
proof -
  have "takeWhile (\<lambda>d. d \<noteq> c) (rev t @ [c]) = rev t @ takeWhile (\<lambda>d. d \<noteq> c) [c]"
    by (rule takeWhile_append2) (use assms in auto)
  then show ?thesis by (simp add: rfind_def)
qed

lemma path_suffix_segment:
  assumes "path_name stem \<noteq> []" "seg \<noteq> []" "CHR ''.'' \<notin> set seg" "CHR ''/'' \<notin> set seg"
  shows "path_suffix (stem @ ''.'' @ seg) = ''.'' @ seg"
proof -
  have n: "path_name (stem @ CHR ''.'' # seg) = path_name stem @ CHR ''.'' # seg"
    using assms(4) path_name_append [of "CHR ''.'' # seg" stem] by simp
  have r: "rfind (path_name stem @ CHR ''.'' # seg) CHR ''.'' = int (length (path_name stem))"
    using assms(3) rfind_append [of "CHR ''.''" "CHR ''.'' # seg" "path_name stem"]
    by (simp add: rfind_Cons_hit)
  show ?thesis
    using assms(1,2) by (simp add: path_suffix_def n r Let_def)
qed


lemma of_char_lower: "(of_char (lower_char c) :: nat) = (if 65 \<le> (of_char c :: nat) \<and> (of_char c :: nat) \<le> 90 then of_char c + 32 else of_char c)"
  by (simp add: lower_char_def Let_def)

lemma lower_char_sep: "lower_char c = CHR ''/'' \<longleftrightarrow> c = CHR ''/''"
proof -
  have "lower_char c = CHR ''/'' \<longleftrightarrow> (of_char (lower_char c) :: nat) = of_char (CHR ''/'')"
    by (simp only: of_char_eq_iff)
  also have "\<dots> \<longleftrightarrow> (of_char c :: nat) = of_char (CHR ''/'')"
    by (simp add: of_char_lower)
  also have "\<dots> \<longleftrightarrow> c = CHR ''/''"
    by (simp only: of_char_eq_iff)
  finally show ?thesis .
qed


lemma lower_path_name: "lower (path_name p) = path_name (lower p)"
proof -
  have "(\<lambda>d. d \<noteq> CHR ''/'') \<circ> lower_char = (\<lambda>d. d \<noteq> CHR ''/'')"
    by (auto simp: lower_char_sep)
  then show ?thesis
    by (simp add: lower_def path_name_def rev_map takeWhile_map)
qed

lemma endswith_iff: "endswith s suf \<longleftrightarrow> (\<exists>pre. s = pre @ suf)"
proof
  assume "endswith s suf"
  then have "s = take (length s - length suf) s @ suf"
    by (simp add: endswith_def) (metis append_take_drop_id)
  then show "\<exists>pre. s = pre @ suf" ..
next
  assume "\<exists>pre. s = pre @ suf"
  then show "endswith s suf" by (auto simp: endswith_def)
qed

lemma path_name_split: "\<exists>d. p = d @ path_name p"
proof -
  have "rev p = takeWhile (\<lambda>d. d \<noteq> CHR ''/'') (rev p) @ dropWhile (\<lambda>d. d \<noteq> CHR ''/'') (rev p)"
    by simp
  then have "p = rev (dropWhile (\<lambda>d. d \<noteq> CHR ''/'') (rev p)) @ path_name p"
    unfolding path_name_def by (metis rev_append rev_rev_ident)
  then show ?thesis ..
qed

lemma endswith_path_name:
  assumes "CHR ''/'' \<notin> set suf"
  shows "endswith (path_name p) suf \<longleftrightarrow> endswith p suf"
proof
  assume "endswith (path_name p) suf"
  then obtain pre where "path_name p = pre @ suf" by (auto simp: endswith_iff)
  moreover obtain d where "p = d @ path_name p" using path_name_split by blast
  ultimately have "p = (d @ pre) @ suf" by simp
  then show "endswith p suf" unfolding endswith_iff ..
next
  assume "endswith p suf"
  then obtain pre where "p = pre @ suf" by (auto simp: endswith_iff)
  then have "path_name p = path_name pre @ suf"
    using assms by (simp add: path_name_append)
  then show "endswith (path_name p) suf" unfolding endswith_iff ..
qed

lemma last_chars_endswith:
  assumes "endswith s suf" "n \<le> length suf"
  shows "last_chars n s = last_chars n suf"
proof -
  obtain pre where "s = pre @ suf" using assms(1) by (auto simp: endswith_iff)
  then show ?thesis using assms(2) by (simp add: last_chars_def)
qed

lemma last_chars_path_name:
  assumes "CHR ''/'' \<notin> set suf" "endswith p suf" "n \<le> length suf"
  shows "last_chars n (path_name p) = last_chars n p"
  using assms last_chars_endswith [of p suf n] last_chars_endswith [of "path_name p" suf n]
  by (simp add: endswith_path_name)

lemma path_suffix_path_name: "path_suffix (path_name p) = path_suffix p"
  by (simp add: path_suffix_def path_name_idem)

lemma get_extension_path_name: "get_extension (path_name p) = get_extension p"
proof -
  let ?q = "lower p"
  have e1: "endswith (path_name ?q) ''.jpg.avif'' = endswith ?q ''.jpg.avif''"
    and e2: "endswith (path_name ?q) ''.jpg.webp'' = endswith ?q ''.jpg.webp''"
    and e3: "endswith (path_name ?q) ''.png.webp'' = endswith ?q ''.png.webp''"
    and e4: "endswith (path_name ?q) ''.png.avif'' = endswith ?q ''.png.avif''"
    by (simp_all add: endswith_path_name)
  have l9: "last_chars 9 (path_name ?q) = last_chars 9 ?q"
    if "endswith ?q ''.jpg.avif'' \<or> endswith ?q ''.jpg.webp''"
    using that last_chars_path_name [of "''.jpg.avif''" ?q 9]
      last_chars_path_name [of "''.jpg.webp''" ?q 9] by auto
  have l8: "last_chars 8 (path_name ?q) = last_chars 8 ?q"
    if "endswith ?q ''.png.webp'' \<or> endswith ?q ''.png.avif''"
    using that last_chars_path_name [of "''.png.webp''" ?q 8]
      last_chars_path_name [of "''.png.avif''" ?q 8] by auto
  show ?thesis
    using l9 l8
    by (simp add: get_extension_def lower_path_name e1 e2 e3 e4 path_suffix_path_name Let_def)
qed

lemmas string_eval = get_extension_def lower_def lower_char_def endswith_def last_chars_def
  path_suffix_def path_name_def rfind_def char_of_def bit_Suc_0_iff

text \<open>
  Claim C7. The logical extension of a file name is the last 9 characters of the lowercased
  name when that ends with \<open>.jpg.avif\<close> or \<open>.jpg.webp\<close>; otherwise its last 8 characters
  when it ends with \<open>.png.webp\<close> or \<open>.png.avif\<close>; otherwise the suffix of the lowercased
  name, which for a name with a non-empty stem and a non-empty last dot-segment is the dot
  with that segment. \<open>photo.jpg\<close> gives \<open>.jpg\<close>, \<open>photo.jpg.avif\<close> gives \<open>.jpg.avif\<close>,
  \<open>icon.PNG\<close> gives \<open>.png\<close> and \<open>archive.tar.gz\<close> gives \<open>.gz\<close>.
\<close>

theorem get_extension_classification:
  "(endswith (lower f) ''.jpg.avif'' \<or> endswith (lower f) ''.jpg.webp'' \<longrightarrow>
      get_extension f = last_chars 9 (lower f)) \<and>
   (\<not> (endswith (lower f) ''.jpg.avif'' \<or> endswith (lower f) ''.jpg.webp'') \<and>
    (endswith (lower f) ''.png.webp'' \<or> endswith (lower f) ''.png.avif'') \<longrightarrow>
      get_extension f = last_chars 8 (lower f)) \<and>
   (\<not> (endswith (lower f) ''.jpg.avif'' \<or> endswith (lower f) ''.jpg.webp'') \<and>
    \<not> (endswith (lower f) ''.png.webp'' \<or> endswith (lower f) ''.png.avif'') \<longrightarrow>
      get_extension f = path_suffix (lower f)) \<and>
   (path_name stem \<noteq> [] \<and> seg \<noteq> [] \<and> CHR ''.'' \<notin> set seg \<and> CHR ''/'' \<notin> set seg \<longrightarrow>
      path_suffix (stem @ ''.'' @ seg) = ''.'' @ seg) \<and>
   get_extension ''photo.jpg'' = ''.jpg'' \<and>
   get_extension ''photo.jpg.avif'' = ''.jpg.avif'' \<and>
   get_extension ''icon.PNG'' = ''.png'' \<and>
   get_extension ''archive.tar.gz'' = ''.gz''"
proof -
  have rule: "get_extension f =
      (if endswith (lower f) ''.jpg.avif'' \<or> endswith (lower f) ''.jpg.webp''
       then last_chars 9 (lower f)
       else if endswith (lower f) ''.png.webp'' \<or> endswith (lower f) ''.png.avif''
       then last_chars 8 (lower f) else path_suffix (lower f))"
    by (simp add: get_extension_def Let_def)
  have seg: "path_name stem \<noteq> [] \<and> seg \<noteq> [] \<and> CHR ''.'' \<notin> set seg \<and> CHR ''/'' \<notin> set seg \<longrightarrow>
      path_suffix (stem @ ''.'' @ seg) = ''.'' @ seg"
    using path_suffix_segment [of stem seg] by blast
  have ex1: "get_extension ''photo.jpg'' = ''.jpg''" by (simp add: string_eval)
  have ex2: "get_extension ''photo.jpg.avif'' = ''.jpg.avif''" by (simp add: string_eval)
  have ex3: "get_extension ''icon.PNG'' = ''.png''" by (simp add: string_eval)
  have ex4: "get_extension ''archive.tar.gz'' = ''.gz''" by (simp add: string_eval)
  show ?thesis
    using rule seg ex1 ex2 ex3 ex4 by presburger
qed

theorem get_extension_classification_witness:
  "get_extension ''Holiday.JPG.WebP'' = ''.jpg.webp'' \<and>
   get_extension ''icon.png.webp'' = ''png.webp'' \<and>
   get_extension ''notes.txt'' = ''.txt'' \<and>
   path_suffix (''pics/archive.tar'' @ ''.'' @ ''gz'') = ''.'' @ ''gz''"
  using get_extension_classification [of "''Holiday.JPG.WebP''" "''pics/archive.tar''" "''gz''"]
    get_extension_classification [of "''icon.png.webp''" "''pics/archive.tar''" "''gz''"]
    get_extension_classification [of "''notes.txt''" "''pics/archive.tar''" "''gz''"]
  by (simp add: lower_def lower_char_def endswith_def last_chars_def path_name_def
      path_suffix_def rfind_def char_of_def bit_Suc_0_iff)

section \<open>compress\_image: the try block and the handler\<close>

lemma temp_path_neq [simp]: "p @ ''.tmp'' \<noteq> p" "p \<noteq> p @ ''.tmp''"
  by simp_all

lemma img_save_written:
  assumes "img_save env img t fmt fsys = (Inr u, fs1)"
  shows "\<exists>b. encode env img fmt = Written b \<and> fs1 = AList.update t (File b) fsys"
  using assms
  by (auto simp: img_save_def split: option.splits node.splits save_outcome.splits)

lemma img_save_failed:
  assumes "img_save env img t fmt fsys = (Inl e, fs1)"
  shows "(\<forall>q. q \<noteq> t \<longrightarrow> map_of fs1 q = map_of fsys q) \<and>
         (is_dir fsys t \<longrightarrow> fs1 = fsys) \<and> (\<not> is_dir fsys t \<longrightarrow> \<not> is_dir fs1 t)"
  using assms
  by (auto simp: img_save_def is_dir_def AList.update_conv'
      split: option.splits node.splits save_outcome.splits)

text \<open>The try block, when it returns.\<close>

lemma compress_image_try_returns:
  assumes "compress_image_try env p st = (Inr r, st', tp)"
  shows "\<exists>b. map_of (fs st) p = Some (File b) \<and> out st' = out st \<and>
     (case reencoded env (fs st) p of
        None \<Rightarrow> r = False \<and> st' = st
      | Some e \<Rightarrow>
          r = True \<and> \<not> is_dir (fs st) (p @ ''.tmp'') \<and> map_of (fs st') (p @ ''.tmp'') = None \<and>
          (\<forall>q. q \<noteq> p \<and> q \<noteq> p @ ''.tmp'' \<longrightarrow> map_of (fs st') q = map_of (fs st) q) \<and>
          (if length e < length b
           then map_of (fs st') p = Some (File e) \<and>
                stats st' = (stats st)\<lparr>compressed_size := compressed_size (stats st) + length e\<rparr>
           else map_of (fs st') p = Some (File b) \<and>
                stats st' = (stats st)\<lparr>compressed_size := compressed_size (stats st) + length b\<rparr>))"
  using assms
  by (auto simp: compress_image_try_def reencoded_def Let_def img_save_def os_path_getsize_def
      image_open_def os_remove_def shutil_move_def add_compressed_size_def is_dir_def
      AList.update_conv' AList.delete_conv'
      split: sum.splits option.splits prod.splits node.splits save_outcome.splits if_splits)


text \<open>The try block, when it raises.\<close>

lemma compress_image_try_raises:
  assumes "compress_image_try env p st = (Inl e, st', tp)"
  shows "stats st' = stats st \<and> out st' = out st \<and>
     (\<forall>q. q \<noteq> p @ ''.tmp'' \<longrightarrow> map_of (fs st') q = map_of (fs st) q) \<and>
     (tp = None \<longrightarrow> fs st' = fs st) \<and>
     (tp \<noteq> None \<longrightarrow> tp = Some (p @ ''.tmp'')) \<and>
     (is_dir (fs st) (p @ ''.tmp'') \<longrightarrow> fs st' = fs st) \<and>
     (\<not> is_dir (fs st) (p @ ''.tmp'') \<longrightarrow> \<not> is_dir (fs st') (p @ ''.tmp''))"
  using assms
  by (auto simp: compress_image_try_def Let_def img_save_def os_path_getsize_def
      os_remove_def shutil_move_def is_dir_def
      AList.update_conv' AList.delete_conv'
      split: sum.splits option.splits prod.splits node.splits save_outcome.splits if_splits)

text \<open>The handler.\<close>

lemma compress_image_except_dir:
  assumes "is_dir (fs st) t"
  shows "compress_image_except p e (Some t) st = (Inl IsADirectoryError, print (ErrorWith p e) st)"
  using assms
  by (auto simp: compress_image_except_def Let_def is_dir_def os_path_exists_def os_remove_def
      print_def split: option.splits node.splits)

lemma compress_image_except_ok:
  assumes "\<forall>t. tp = Some t \<longrightarrow> \<not> is_dir (fs st) t"
  shows "\<exists>st'. compress_image_except p e tp st = (Inr False, st') \<and>
     stats st' = stats st \<and> out st' = out st @ [ErrorWith p e] \<and>
     (\<forall>q. tp \<noteq> Some q \<longrightarrow> map_of (fs st') q = map_of (fs st) q) \<and>
     (\<forall>t. tp = Some t \<longrightarrow> map_of (fs st') t = None)"
  using assms
  by (auto simp: compress_image_except_def Let_def is_dir_def os_path_exists_def os_remove_def
      print_def AList.delete_conv' split: option.splits node.splits)

text \<open>compress\_image as a whole.\<close>

lemma compress_image_returns:
  assumes "compress_image_try env p st = (Inr r, st', tp)"
  shows "compress_image env p st = (Inr r, st')"
  using assms by (simp add: compress_image_def)

lemma compress_image_caught:
  assumes "compress_image_try env p st = (Inl e, st1, tp)"
    and "\<not> is_dir (fs st) (p @ ''.tmp'')"
  shows "\<exists>st'. compress_image env p st = (Inr False, st') \<and>
     stats st' = stats st \<and> out st' = out st @ [ErrorWith p e] \<and>
     (\<forall>q. q \<noteq> p @ ''.tmp'' \<longrightarrow> map_of (fs st') q = map_of (fs st) q) \<and>
     (tp = None \<longrightarrow> fs st' = fs st) \<and>
     (tp \<noteq> None \<longrightarrow> map_of (fs st') (p @ ''.tmp'') = None)"
proof -
  note t = compress_image_try_raises [OF assms(1)]
  have nd: "\<forall>t. tp = Some t \<longrightarrow> \<not> is_dir (fs st1) t"
    using t assms(2) by auto
  obtain st' where h: "compress_image_except p e tp st1 = (Inr False, st')"
    "stats st' = stats st1" "out st' = out st1 @ [ErrorWith p e]"
    "\<forall>q. tp \<noteq> Some q \<longrightarrow> map_of (fs st') q = map_of (fs st1) q"
    "\<forall>t. tp = Some t \<longrightarrow> map_of (fs st') t = None"
    using compress_image_except_ok [OF nd, of p e] by blast
  have c: "compress_image env p st = (Inr False, st')"
    using assms(1) h(1) by (simp add: compress_image_def)
  have none: "tp = None \<longrightarrow> fs st' = fs st"
    using t h(1) by (auto simp: compress_image_except_def print_def Let_def)
  have others: "\<forall>q. q \<noteq> p @ ''.tmp'' \<longrightarrow> map_of (fs st') q = map_of (fs st) q"
    using t h(4) by (cases tp) auto
  show ?thesis
    using c t h(2,3,5) none others by auto
qed

lemma compress_image_escapes:
  assumes "compress_image_try env p st = (Inl e, st1, Some t)"
    and "is_dir (fs st) (p @ ''.tmp'')"
  shows "compress_image env p st = (Inl IsADirectoryError, print (ErrorWith p e) st)"
proof -
  note t = compress_image_try_raises [OF assms(1)]
  have eq: "t = p @ ''.tmp''" "fs st1 = fs st" "stats st1 = stats st" "out st1 = out st"
    using t assms(2) by auto
  then have s: "st1 = st" by simp
  have "compress_image env p st = compress_image_except p e (Some t) st1"
    using assms(1) by (simp add: compress_image_def)
  also have "\<dots> = compress_image_except p e (Some (p @ ''.tmp'')) st"
    using s eq(1) by simp
  also have "\<dots> = (Inl IsADirectoryError, print (ErrorWith p e) st)"
    using assms(2) by (rule compress_image_except_dir)
  finally show ?thesis .
qed

lemma compress_image_contained:
  assumes "\<not> is_dir (fs st) (p @ ''.tmp'')"
  shows "\<exists>r st'. compress_image env p st = (Inr r, st')"
proof -
  obtain x st1 tp where c: "compress_image_try env p st = (x, st1, tp)"
    by (metis prod_cases3)
  show ?thesis
  proof (cases x)
    case (Inl e)
    then show ?thesis using compress_image_caught [of env p st e st1 tp] c assms by blast
  next
    case (Inr r)
    then show ?thesis using compress_image_returns [of env p st r st1 tp] c by blast
  qed
qed

lemma compress_image_try_frame:
  assumes "fs st2 = fs st"
  shows "fst (compress_image_try env p st2) = fst (compress_image_try env p st) \<and>
         fs (fst (snd (compress_image_try env p st2))) = fs (fst (snd (compress_image_try env p st))) \<and>
         snd (snd (compress_image_try env p st2)) = snd (snd (compress_image_try env p st))"
  using assms
  by (auto simp: compress_image_try_def Let_def add_compressed_size_def
      split: sum.splits option.splits prod.splits if_splits)


lemma compress_image_except_frame:
  assumes "fs st2 = fs st"
  shows "fst (compress_image_except p e tp st2) = fst (compress_image_except p e tp st) \<and>
         fs (snd (compress_image_except p e tp st2)) = fs (snd (compress_image_except p e tp st))"
  using assms
  by (auto simp: compress_image_except_def Let_def print_def split: sum.splits option.splits)

lemma compress_image_frame:
  assumes "fs st2 = fs st"
  shows "fst (compress_image env p st2) = fst (compress_image env p st) \<and>
         fs (snd (compress_image env p st2)) = fs (snd (compress_image env p st))"
proof -
  obtain x s1 tp where a: "compress_image_try env p st = (x, s1, tp)" by (metis prod_cases3)
  obtain x2 s2 tp2 where b: "compress_image_try env p st2 = (x2, s2, tp2)" by (metis prod_cases3)
  have eq: "x2 = x" "fs s2 = fs s1" "tp2 = tp"
    using compress_image_try_frame [OF assms, of env p] a b by simp_all
  show ?thesis
  proof (cases x)
    case (Inr r)
    then show ?thesis using a b eq by (simp add: compress_image_def)
  next
    case (Inl e)
    then show ?thesis
      using a b eq compress_image_except_frame [OF eq(2), of p e tp]
      by (simp add: compress_image_def)
  qed
qed

text \<open>What a call of compress\_image may change.\<close>

lemma compress_image_try_raises_dir:
  assumes "compress_image_try env p st = (Inl e, st1, tp)" and "is_dir (fs st) (p @ ''.tmp'')"
  shows "compress_image env p st =
     (if tp = None then Inr False else Inl IsADirectoryError, print (ErrorWith p e) st)"
proof -
  note t = compress_image_try_raises [OF assms(1)]
  have "fs st1 = fs st" "stats st1 = stats st" "out st1 = out st"
    using t assms(2) by auto
  then have s: "st1 = st" by simp
  show ?thesis
  proof (cases tp)
    case None
    then show ?thesis
      using assms(1) s by (simp add: compress_image_def compress_image_except_def Let_def)
  next
    case (Some t')
    then show ?thesis
      using compress_image_escapes [of env p st e st1 t'] assms by simp
  qed
qed

lemma compress_image_effect:
  assumes "compress_image env p st = (x, st')"
  shows "total_files (stats st') = total_files (stats st)"
    and "compressed (stats st') = compressed (stats st)"
    and "failed (stats st') = failed (stats st)"
    and "original_size (stats st') = original_size (stats st)"
    and "\<forall>q. q \<noteq> p \<and> q \<noteq> p @ ''.tmp'' \<longrightarrow> map_of (fs st') q = map_of (fs st) q"
    and "\<forall>q. is_dir (fs st') q = is_dir (fs st) q"
    and "\<forall>osz. os_path_getsize (fs st) p = Inr osz \<longrightarrow>
           (\<exists>n\<le>osz. compressed_size (stats st') = compressed_size (stats st) + n \<and>
              (x = Inr True \<longrightarrow> os_path_getsize (fs st') p = Inr n) \<and>
              (x \<noteq> Inr True \<longrightarrow> n = 0 \<and> map_of (fs st') p = map_of (fs st) p))"
proof -
  obtain y s1 tp where a: "compress_image_try env p st = (y, s1, tp)" by (metis prod_cases3)
  have "total_files (stats st') = total_files (stats st) \<and>
    compressed (stats st') = compressed (stats st) \<and>
    failed (stats st') = failed (stats st) \<and>
    original_size (stats st') = original_size (stats st) \<and>
    (\<forall>q. q \<noteq> p \<and> q \<noteq> p @ ''.tmp'' \<longrightarrow> map_of (fs st') q = map_of (fs st) q) \<and>
    (\<forall>q. is_dir (fs st') q = is_dir (fs st) q) \<and>
    (\<forall>osz. os_path_getsize (fs st) p = Inr osz \<longrightarrow>
           (\<exists>n\<le>osz. compressed_size (stats st') = compressed_size (stats st) + n \<and>
              (x = Inr True \<longrightarrow> os_path_getsize (fs st') p = Inr n) \<and>
              (x \<noteq> Inr True \<longrightarrow> n = 0 \<and> map_of (fs st') p = map_of (fs st) p)))"
  proof (cases y)
    case (Inr r)
    have c: "x = Inr r" "st' = s1"
      using compress_image_returns [of env p st r s1 tp] a Inr assms by simp_all
    obtain b where b: "map_of (fs st) p = Some (File b)"
      and k: "case reencoded env (fs st) p of
        None \<Rightarrow> r = False \<and> s1 = st
      | Some e \<Rightarrow>
          r = True \<and> \<not> is_dir (fs st) (p @ ''.tmp'') \<and> map_of (fs s1) (p @ ''.tmp'') = None \<and>
          (\<forall>q. q \<noteq> p \<and> q \<noteq> p @ ''.tmp'' \<longrightarrow> map_of (fs s1) q = map_of (fs st) q) \<and>
          (if length e < length b
           then map_of (fs s1) p = Some (File e) \<and>
                stats s1 = (stats st)\<lparr>compressed_size := compressed_size (stats st) + length e\<rparr>
           else map_of (fs s1) p = Some (File b) \<and>
                stats s1 = (stats st)\<lparr>compressed_size := compressed_size (stats st) + length b\<rparr>)"
      using compress_image_try_returns [of env p st r s1 tp] a Inr by auto
    show ?thesis
    proof (cases "reencoded env (fs st) p")
      case None
      then show ?thesis using k c b by (simp add: os_path_getsize_def)
    next
      case (Some e)
      have d: "\<forall>q. is_dir (fs s1) q = is_dir (fs st) q"
      proof
        fix q
        show "is_dir (fs s1) q = is_dir (fs st) q"
          using k Some b
          by (cases "q = p"; cases "q = p @ ''.tmp''") (auto simp: is_dir_def split: if_splits)
      qed
      show ?thesis
        using k Some c b d
        by (cases "length e < length b") (auto simp: os_path_getsize_def)
    qed
  next
    case (Inl e)
    note t = compress_image_try_raises [of env p st e s1 tp]
    show ?thesis
    proof (cases "is_dir (fs st) (p @ ''.tmp'')")
      case True
      then have "compress_image env p st =
         (if tp = None then Inr False else Inl IsADirectoryError, print (ErrorWith p e) st)"
        using compress_image_try_raises_dir [of env p st e s1 tp] a Inl by simp
      then show ?thesis using assms by (auto simp: print_def)
    next
      case False
      obtain s2 where h: "compress_image env p st = (Inr False, s2)"
        "stats s2 = stats st"
        "\<forall>q. q \<noteq> p @ ''.tmp'' \<longrightarrow> map_of (fs s2) q = map_of (fs st) q"
        "tp = None \<longrightarrow> fs s2 = fs st"
        "tp \<noteq> None \<longrightarrow> map_of (fs s2) (p @ ''.tmp'') = None"
        using compress_image_caught [of env p st e s1 tp] a Inl False by auto
      have c: "x = Inr False" "st' = s2" using h(1) assms by simp_all
      have d: "\<forall>q. is_dir (fs s2) q = is_dir (fs st) q"
      proof
        fix q
        show "is_dir (fs s2) q = is_dir (fs st) q"
          using h(3,4,5) False
          by (cases "q = p @ ''.tmp''"; cases tp) (auto simp: is_dir_def)
      qed
      show ?thesis using c h(2,3) d by simp
    qed
  qed
  then show "total_files (stats st') = total_files (stats st)"
    and "compressed (stats st') = compressed (stats st)"
    and "failed (stats st') = failed (stats st)"
    and "original_size (stats st') = original_size (stats st)"
    and "\<forall>q. q \<noteq> p \<and> q \<noteq> p @ ''.tmp'' \<longrightarrow> map_of (fs st') q = map_of (fs st) q"
    and "\<forall>q. is_dir (fs st') q = is_dir (fs st) q"
    and "\<forall>osz. os_path_getsize (fs st) p = Inr osz \<longrightarrow>
           (\<exists>n\<le>osz. compressed_size (stats st') = compressed_size (stats st) + n \<and>
              (x = Inr True \<longrightarrow> os_path_getsize (fs st') p = Inr n) \<and>
              (x \<noteq> Inr True \<longrightarrow> n = 0 \<and> map_of (fs st') p = map_of (fs st) p))"
    by simp_all
qed

section \<open>process\_folder: the loop\<close>

text \<open>One iteration of the loop.\<close>

lemma process_one_missing:
  assumes "os_path_getsize (fs st) p = Inl e"
  shows "process_one env i p st = (Inl e, st)"
  using assms by (simp add: process_one_def)

lemma process_one_unfold:
  assumes "os_path_getsize (fs st) p = Inr osz"
  shows "process_one env i p st =
     (case compress_image env p
             (print (Progress i (total_files (stats st)) (path_name p))
                (st\<lparr>stats := (stats st)\<lparr>original_size := original_size (stats st) + osz\<rparr>\<rparr>)) of
        (Inl e, st3) \<Rightarrow> (Inl e, st3)
      | (Inr True, st3) \<Rightarrow>
          (case os_path_getsize (fs st3) p of
             Inl e \<Rightarrow> (Inl e, st3)
           | Inr nsz \<Rightarrow>
               (if osz = 0 then (Inl ZeroDivisionError, st3)
                else (Inr (), (print (Reduced ((1 - of_nat nsz / of_nat osz) * 100)) st3)
                   \<lparr>stats := (stats st3)\<lparr>compressed := compressed (stats st3) + 1\<rparr>\<rparr>)))
      | (Inr False, st3) \<Rightarrow>
          (Inr (), (print Failure st3)\<lparr>stats := (stats st3)\<lparr>failed := failed (stats st3) + 1\<rparr>\<rparr>))"
  unfolding process_one_def using assms
  by (simp add: Let_def print_def
      cong del: sum.case_cong_weak bool.case_cong_weak prod.case_cong_weak if_weak_cong)

lemma process_one_effect:
  assumes "process_one env i p st = (x, st')" and "os_path_getsize (fs st) p = Inr osz"
  shows "total_files (stats st') = total_files (stats st)"
    and "original_size (stats st') = original_size (stats st) + osz"
    and "\<forall>q. q \<noteq> p \<and> q \<noteq> p @ ''.tmp'' \<longrightarrow> map_of (fs st') q = map_of (fs st) q"
    and "\<forall>q. is_dir (fs st') q = is_dir (fs st) q"
    and "\<exists>n\<le>osz. compressed_size (stats st') = compressed_size (stats st) + n \<and>
           (compressed (stats st') = compressed (stats st) + 1 \<longrightarrow>
              os_path_getsize (fs st') p = Inr n) \<and>
           (compressed (stats st') \<noteq> compressed (stats st) + 1 \<longrightarrow>
              n = 0 \<and> compressed (stats st') = compressed (stats st))"
    and "x = Inr () \<longrightarrow>
           compressed (stats st') + failed (stats st') = compressed (stats st) + failed (stats st) + 1"
proof -
  define st2 where "st2 =
    print (Progress i (total_files (stats st)) (path_name p))
      (st\<lparr>stats := (stats st)\<lparr>original_size := original_size (stats st) + osz\<rparr>\<rparr>)"
  obtain y s3 where c: "compress_image env p st2 = (y, s3)" by (metis surj_pair)
  have f2: "fs st2 = fs st" "total_files (stats st2) = total_files (stats st)"
    "original_size (stats st2) = original_size (stats st) + osz"
    "compressed_size (stats st2) = compressed_size (stats st)"
    "compressed (stats st2) = compressed (stats st)" "failed (stats st2) = failed (stats st)"
    by (simp_all add: st2_def print_def)
  note e = compress_image_effect [OF c]
  obtain n where n: "n \<le> osz" "compressed_size (stats s3) = compressed_size (stats st2) + n"
    "y = Inr True \<longrightarrow> os_path_getsize (fs s3) p = Inr n"
    "y \<noteq> Inr True \<longrightarrow> n = 0 \<and> map_of (fs s3) p = map_of (fs st2) p"
    using e(7) assms(2) f2(1) by auto
  have p1: "process_one env i p st =
     (case y of
        Inl e \<Rightarrow> (Inl e, s3)
      | Inr True \<Rightarrow>
          (if osz = 0 then (Inl ZeroDivisionError, s3)
           else (Inr (), (print (Reduced ((1 - of_nat n / of_nat osz) * 100)) s3)
                  \<lparr>stats := (stats s3)\<lparr>compressed := compressed (stats s3) + 1\<rparr>\<rparr>))
      | Inr False \<Rightarrow> (Inr (), (print Failure s3)\<lparr>stats := (stats s3)\<lparr>failed := failed (stats s3) + 1\<rparr>\<rparr>))"
    using process_one_unfold [OF assms(2), of env i] c n(3)
    unfolding st2_def [symmetric] by (auto split: sum.splits bool.splits)
  have all: "total_files (stats st') = total_files (stats st) \<and>
     original_size (stats st') = original_size (stats st) + osz \<and>
     (\<forall>q. q \<noteq> p \<and> q \<noteq> p @ ''.tmp'' \<longrightarrow> map_of (fs st') q = map_of (fs st) q) \<and>
     (\<forall>q. is_dir (fs st') q = is_dir (fs st) q) \<and>
     (\<exists>n\<le>osz. compressed_size (stats st') = compressed_size (stats st) + n \<and>
           (compressed (stats st') = compressed (stats st) + 1 \<longrightarrow>
              os_path_getsize (fs st') p = Inr n) \<and>
           (compressed (stats st') \<noteq> compressed (stats st) + 1 \<longrightarrow>
              n = 0 \<and> compressed (stats st') = compressed (stats st))) \<and>
     (x = Inr () \<longrightarrow>
           compressed (stats st') + failed (stats st') = compressed (stats st) + failed (stats st) + 1)"
  proof (cases y)
    case (Inl ex)
    then have "x = Inl ex" "st' = s3" using p1 assms(1) by simp_all
    then show ?thesis using e f2 n Inl by auto
  next
    case (Inr r)
    show ?thesis
    proof (cases r)
      case True
      show ?thesis
      proof (cases "osz = 0")
        case z: True
        then have "x = Inl ZeroDivisionError" "st' = s3" using p1 assms(1) Inr True by simp_all
        then show ?thesis using e f2 n Inr True z by auto
      next
        case nz: False
        then have "x = Inr ()"
          "st' = (print (Reduced ((1 - of_nat n / of_nat osz) * 100)) s3)
                  \<lparr>stats := (stats s3)\<lparr>compressed := compressed (stats s3) + 1\<rparr>\<rparr>"
          using p1 assms(1) Inr True by simp_all
        then show ?thesis using e f2 n Inr True nz by (auto simp: print_def)
      qed
    next
      case False
      then have "x = Inr ()"
        "st' = (print Failure s3)\<lparr>stats := (stats s3)\<lparr>failed := failed (stats s3) + 1\<rparr>\<rparr>"
        using p1 assms(1) Inr by simp_all
      then show ?thesis using e f2 n Inr False by (auto simp: print_def)
    qed
  qed
  then show "total_files (stats st') = total_files (stats st)"
    and "original_size (stats st') = original_size (stats st) + osz"
    and "\<forall>q. q \<noteq> p \<and> q \<noteq> p @ ''.tmp'' \<longrightarrow> map_of (fs st') q = map_of (fs st) q"
    and "\<forall>q. is_dir (fs st') q = is_dir (fs st) q"
    and "\<exists>n\<le>osz. compressed_size (stats st') = compressed_size (stats st) + n \<and>
           (compressed (stats st') = compressed (stats st) + 1 \<longrightarrow>
              os_path_getsize (fs st') p = Inr n) \<and>
           (compressed (stats st') \<noteq> compressed (stats st) + 1 \<longrightarrow>
              n = 0 \<and> compressed (stats st') = compressed (stats st))"
    and "x = Inr () \<longrightarrow>
           compressed (stats st') + failed (stats st') = compressed (stats st) + failed (stats st) + 1"
    by blast+
qed


lemma process_one_inv:
  assumes "compressed_size (stats st) \<le> original_size (stats st)"
  shows "compressed_size (stats (snd (process_one env i p st))) \<le>
         original_size (stats (snd (process_one env i p st)))"
proof (cases "os_path_getsize (fs st) p")
  case (Inl e)
  then show ?thesis using assms by (simp add: process_one_missing)
next
  case (Inr osz)
  obtain x st' where r: "process_one env i p st = (x, st')" by (metis surj_pair)
  show ?thesis
    using process_one_effect(2,5) [OF r Inr] assms r by auto
qed

lemma process_files_inv:
  assumes "compressed_size (stats st) \<le> original_size (stats st)"
  shows "compressed_size (stats (snd (process_files env i files st))) \<le>
         original_size (stats (snd (process_files env i files st)))"
  using assms
proof (induction files arbitrary: i st)
  case Nil
  then show ?case by simp
next
  case (Cons p files)
  obtain x st' where r: "process_one env i p st = (x, st')" by (metis surj_pair)
  have inv: "compressed_size (stats st') \<le> original_size (stats st')"
    using process_one_inv [OF Cons.prems, of env i p] r by simp
  show ?case
  proof (cases x)
    case (Inl e)
    then show ?thesis using r inv by simp
  next
    case (Inr u)
    then show ?thesis using r Cons.IH [OF inv] by simp
  qed
qed

lemma process_folder_inv:
  assumes "compressed_size (stats st) \<le> original_size (stats st)"
  shows "compressed_size (stats (snd (process_folder env folder st))) \<le>
         original_size (stats (snd (process_folder env folder st)))"
proof -
  define st2 where "st2 =
    print (Processing (length (image_files (fs st) folder)))
      (st\<lparr>stats := (stats st)\<lparr>total_files := length (image_files (fs st) folder)\<rparr>\<rparr>)"
  have "compressed_size (stats st2) \<le> original_size (stats st2)"
    using assms by (simp add: st2_def print_def)
  then have l: "compressed_size (stats (snd (process_files env 1 (image_files (fs st) folder) st2))) \<le>
         original_size (stats (snd (process_files env 1 (image_files (fs st) folder) st2)))"
    by (rule process_files_inv)
  have "snd (process_folder env folder st) = print (FolderMissing folder) st \<or>
        snd (process_folder env folder st) = print NoImageFound st \<or>
        snd (process_folder env folder st) =
          snd (process_files env 1 (image_files (fs st) folder) st2)"
    by (auto simp: process_folder_def Let_def st2_def print_def split: prod.splits sum.splits)
  then show ?thesis using l assms by (auto simp: print_def)
qed

section \<open>format\_size\<close>

text \<open>
  Claim C10. format\_size divides by 1024 from unit to unit through B, KB, MB and GB, formats
  the first value below 1024 with two decimals, and falls through to TB otherwise;
  \<open>format_size 0\<close> is \<open>0.00 B\<close>, \<open>format_size 1536\<close> is \<open>1.50 KB\<close> and
  \<open>format_size 1073741824\<close> is \<open>1.00 GB\<close>.
\<close>

theorem format_size_units:
  "(n < 1024 \<longrightarrow> format_size n = format_2f (of_int n) @ '' B'') \<and>
   (1024 \<le> n \<and> n < 1024 ^ 2 \<longrightarrow> format_size n = format_2f (of_int n / 1024) @ '' KB'') \<and>
   (1024 ^ 2 \<le> n \<and> n < 1024 ^ 3 \<longrightarrow> format_size n = format_2f (of_int n / 1024 / 1024) @ '' MB'') \<and>
   (1024 ^ 3 \<le> n \<and> n < 1024 ^ 4 \<longrightarrow>
      format_size n = format_2f (of_int n / 1024 / 1024 / 1024) @ '' GB'') \<and>
   (1024 ^ 4 \<le> n \<longrightarrow>
      format_size n = format_2f (of_int n / 1024 / 1024 / 1024 / 1024) @ '' TB'') \<and>
   format_size 0 = ''0.00 B'' \<and>
   format_size 1536 = ''1.50 KB'' \<and>
   format_size 1073741824 = ''1.00 GB''"
proof -
  have lt: "(of_int n :: rat) < 1024 \<longleftrightarrow> n < 1024"
    "(of_int n :: rat) / 1024 < 1024 \<longleftrightarrow> n < 1024 ^ 2"
    "(of_int n :: rat) / 1024 / 1024 < 1024 \<longleftrightarrow> n < 1024 ^ 3"
    "(of_int n :: rat) / 1024 / 1024 / 1024 < 1024 \<longleftrightarrow> n < 1024 ^ 4"
    by (simp_all add: divide_less_eq)
  have ex1: "format_size 0 = ''0.00 B''" by code_simp
  have ex2: "format_size 1536 = ''1.50 KB''" by code_simp
  have ex3: "format_size 1073741824 = ''1.00 GB''" by code_simp
  have units: "(n < 1024 \<longrightarrow> format_size n = format_2f (of_int n) @ '' B'') \<and>
   (1024 \<le> n \<and> n < 1024 ^ 2 \<longrightarrow> format_size n = format_2f (of_int n / 1024) @ '' KB'') \<and>
   (1024 ^ 2 \<le> n \<and> n < 1024 ^ 3 \<longrightarrow> format_size n = format_2f (of_int n / 1024 / 1024) @ '' MB'') \<and>
   (1024 ^ 3 \<le> n \<and> n < 1024 ^ 4 \<longrightarrow>
      format_size n = format_2f (of_int n / 1024 / 1024 / 1024) @ '' GB'') \<and>
   (1024 ^ 4 \<le> n \<longrightarrow>
      format_size n = format_2f (of_int n / 1024 / 1024 / 1024 / 1024) @ '' TB'')"
    unfolding format_size_def by (simp add: lt)
  show ?thesis using units ex1 ex2 ex3 by blast
qed

end
